theory Spec2Isabelle
  imports Complex_Main "HOL-Library.Multiset"
begin

section \<open>The weekly planner view: data model\<close>

text \<open>
  The source is \<^verbatim>\<open>src/src/main.ts\<close>, class \<^verbatim>\<open>WeekplanView\<close>. Its document
  (\<^verbatim>\<open>this.yamlData\<close>) is an untyped object loaded from YAML; the model gives it
  the shape the code reads and writes. The file holds three revisions of the
  view, one after the other; the model follows the first, the current one.

  \<^item> A stored timestamp string is represented by the wall-clock instant, in
    milliseconds, that \<^verbatim>\<open>new Date(s).getTime()\<close> yields for it; an absent (or
    empty) timestamp is \<open>None\<close>, for which the source's \<^verbatim>\<open>ev.start && ev.end\<close>
    is false and \<^verbatim>\<open>getTime()\<close> is NaN. Non-empty strings that are no dates
    are outside the model.
  \<^item> A number is an IEEE double, represented by its value; every operation of
    the source on hours rounds its result to the nearest double (see below).
  \<^item> \<open>estimated_hours\<close> holds the number that \<^verbatim>\<open>parseFloat\<close> returns on the
    stored value, NaN included.
  \<^item> \<open>goals\<close>, \<open>events\<close> and \<open>items\<close> may be absent, as the source checks.
  \<^item> \<open>ev_type\<close> is the stored string; the empty string stands for an absent type.
  \<^item> \<open>ev_other\<close> holds the keys of a stored event that the code never names;
    the object spread of \<^verbatim>\<open>handleEventChange\<close> carries them over.
\<close>

datatype jsnum = NaN | Num real

record task =
  task_id :: string
  task_title :: string
  estimated_hours :: jsnum
  status :: string

record goal =
  role :: string
  items :: "task list option"

record event =
  ev_id :: string
  ev_taskId :: "string option"
  ev_type :: string
  ev_title :: string
  ev_start :: "int option"
  ev_end :: "int option"
  ev_color :: "string option"
  ev_other :: "(string \<times> string) list"

record document =
  insight :: string
  goals :: "goal list option"
  events :: "event list option"

text \<open>The calendar widget's event object, as the handlers read it.\<close>

record cal_event =
  ce_id :: string
  ce_title :: string
  ce_start :: int
  ce_end :: "int option"
  backgroundColor :: string
  ext_type :: "string option"
  ext_taskId :: "string option"

datatype action = Receive | Update

datatype error = TypeError

text \<open>
  The notices of the source, in its order of appearance: fetching the external
  events, the fetch failed, the events were synchronised, the data could not be
  analysed, a system error, the YAML has a syntax error, a fixed external event
  cannot be changed, the block was deleted.
\<close>

datatype notice =
  NoticeFetching | NoticeFetchFailed | NoticeSynced | NoticeParseFailed
  | NoticeSystemError | NoticeYamlSyntax | NoticeOutlookFixed | NoticeDeleted

datatype label = SourceModeLabel | VisualModeLabel

text \<open>
  The state of the view. \<open>file_text\<close> is the text last written to the open file
  (\<open>None\<close> when no file is open); writes by the host are taken to succeed.
\<close>

record view =
  yamlData :: document
  file_text :: "string option"
  isSourceMode :: bool
  sourceValue :: string
  sourceDisplay :: string
  visualDisplay :: string
  toggleLabel :: label
  notices :: "notice list"

section \<open>JavaScript helpers\<close>

text \<open>\<^verbatim>\<open>a || b\<close> on an optional string: absent and empty are falsy.\<close>

definition str_or :: "string option \<Rightarrow> string \<Rightarrow> string" where
  "str_or a b = (case a of None \<Rightarrow> b | Some s \<Rightarrow> if s = [] then b else s)"

text \<open>\<^verbatim>\<open>a || b\<close> on a number: NaN and 0 are falsy.\<close>

definition num_or :: "jsnum \<Rightarrow> real \<Rightarrow> real" where
  "num_or a b = (case a of NaN \<Rightarrow> b | Num r \<Rightarrow> if r = 0 then b else r)"

text \<open>\<^verbatim>\<open>Map.get(k) || 0\<close> on the map of hours.\<close>

definition get_or_0 :: "(string \<rightharpoonup> real) \<Rightarrow> string \<Rightarrow> real" where
  "get_or_0 m k = (case m k of None \<Rightarrow> 0 | Some h \<Rightarrow> h)"

subsection \<open>Double precision arithmetic\<close>

text \<open>
  The source computes hours with JavaScript numbers. A finite double is taken as
  the real number it denotes, and \<open>toDouble\<close> rounds a real to the nearest double:
  53 significant bits, ties to the even neighbour. \<open>exponent x\<close> is the power of
  two at or below a positive \<open>x\<close>, and \<open>pow2 (exponent x - 52)\<close> is the distance of
  the doubles around \<open>x\<close>. Overflow and subnormal numbers are not modelled: the
  hours of events whose timestamps \<^verbatim>\<open>Date\<close> can hold stay far from both.
\<close>

fun bitlength :: "nat \<Rightarrow> nat" where
  "bitlength n = (if n = 0 then 0 else Suc (bitlength (n div 2)))"

declare bitlength.simps [simp del]

definition pow2 :: "int \<Rightarrow> real" where
  "pow2 k = (if 0 \<le> k then 2 ^ nat k else 1 / 2 ^ nat (- k))"

definition exponent :: "real \<Rightarrow> int" where
  "exponent x =
     (if 1 \<le> x then int (bitlength (nat \<lfloor>x\<rfloor>)) - 1
      else - int (bitlength (nat (\<lceil>1 / x\<rceil> - 1))))"

definition roundHalfEven :: "real \<Rightarrow> int" where
  "roundHalfEven y =
     (let f = \<lfloor>y\<rfloor>; r = y - of_int f
      in if r < 1 / 2 then f else if 1 / 2 < r then f + 1 else if even f then f else f + 1)"

definition toDouble :: "real \<Rightarrow> real" where
  "toDouble x =
     (if x = 0 then 0
      else (let ulp = pow2 (exponent \<bar>x\<bar> - 52)
            in of_int (roundHalfEven (x / ulp)) * ulp))"

text \<open>The operators \<^verbatim>\<open>+\<close>, \<^verbatim>\<open>-\<close> and \<^verbatim>\<open>/\<close> on numbers.\<close>

definition num_add :: "real \<Rightarrow> real \<Rightarrow> real" where
  "num_add a b = toDouble (a + b)"

definition num_sub :: "real \<Rightarrow> real \<Rightarrow> real" where
  "num_sub a b = toDouble (a - b)"

definition num_div :: "real \<Rightarrow> real \<Rightarrow> real" where
  "num_div a b = toDouble (a / b)"

fun findIndex :: "('a \<Rightarrow> bool) \<Rightarrow> 'a list \<Rightarrow> nat option" where
  "findIndex P [] = None"
| "findIndex P (x # xs) = (if P x then Some 0 else map_option Suc (findIndex P xs))"

text \<open>
  \<^verbatim>\<open>formatLocalISO\<close> writes year, month, day, hour and minute of the date and
  \<^verbatim>\<open>:00\<close> for the seconds: the instant, cut down to the minute.
\<close>

definition formatLocalISO :: "int \<Rightarrow> int" where
  "formatLocalISO date = date - date mod 60000"

subsection \<open>Sorting by start\<close>

text \<open>
  The comparator of both \<^verbatim>\<open>sort\<close> calls is
  \<^verbatim>\<open>new Date(a.start).getTime() - new Date(b.start).getTime()\<close>; \<open>None\<close> is NaN,
  which \<^verbatim>\<open>Array.prototype.sort\<close> reads as 0. The sort is stable. Where every
  event has a start the comparator is a consistent order and the result below
  is the only stable one; otherwise ECMAScript leaves the order to the
  implementation, and the result below is one admissible order.
\<close>

definition compareStart :: "event \<Rightarrow> event \<Rightarrow> int option" where
  "compareStart a b =
     (case (ev_start a, ev_start b) of (Some x, Some y) \<Rightarrow> Some (x - y) | _ \<Rightarrow> None)"

definition sortCompare :: "event \<Rightarrow> event \<Rightarrow> int" where
  "sortCompare a b = (case compareStart a b of None \<Rightarrow> 0 | Some v \<Rightarrow> v)"

fun insertByStart :: "event \<Rightarrow> event list \<Rightarrow> event list" where
  "insertByStart x [] = [x]"
| "insertByStart x (y # ys) =
     (if sortCompare x y \<le> 0 then x # y # ys else y # insertByStart x ys)"

definition sortByStart :: "event list \<Rightarrow> event list" where
  "sortByStart xs = foldr insertByStart xs []"

section \<open>The status reconciler\<close>

text \<open>The body of the \<^verbatim>\<open>forEach\<close> over the events: one event added to the map.\<close>

definition addEventHours :: "event \<Rightarrow> (string \<rightharpoonup> real) \<Rightarrow> (string \<rightharpoonup> real)" where
  "addEventHours ev taskHours =
     (if ev_type ev = ''task'' then
        (let taskId = str_or (ev_taskId ev) (ev_id ev) in
         case (ev_start ev, ev_end ev) of
           (Some start, Some end') \<Rightarrow>
             (let hours = num_div (num_sub (of_int end') (of_int start)) (1000 * 60 * 60)
              in taskHours(taskId \<mapsto> num_add (get_or_0 taskHours taskId) hours))
         | _ \<Rightarrow> taskHours)
      else taskHours)"

definition collectTaskHours :: "event list option \<Rightarrow> (string \<rightharpoonup> real)" where
  "collectTaskHours evs =
     (case evs of None \<Rightarrow> Map.empty | Some es \<Rightarrow> fold addEventHours es Map.empty)"

definition updateTask :: "(string \<rightharpoonup> real) \<Rightarrow> task \<Rightarrow> task" where
  "updateTask taskHours t =
     (if status t = ''dropped'' \<or> status t = ''completed'' then t
      else
        (let totalScheduled = get_or_0 taskHours (task_id t);
             estimated = num_or (estimated_hours t) 1
         in if totalScheduled = 0 then t\<lparr>status := ''pool''\<rparr>
            else if totalScheduled < estimated then t\<lparr>status := ''partial''\<rparr>
            else t\<lparr>status := ''scheduled''\<rparr>))"

definition updateRole :: "(string \<rightharpoonup> real) \<Rightarrow> goal \<Rightarrow> goal" where
  "updateRole taskHours g = g\<lparr>items := map_option (map (updateTask taskHours)) (items g)\<rparr>"

definition updateTaskStatuses :: "document \<Rightarrow> document" where
  "updateTaskStatuses d =
     (case goals d of
        None \<Rightarrow> d
      | Some gs \<Rightarrow> d\<lparr>goals := Some (map (updateRole (collectTaskHours (events d))) gs)\<rparr>)"

section \<open>The calendar handlers\<close>

definition newEventData :: "cal_event \<Rightarrow> event" where
  "newEventData e =
     \<lparr>ev_id = ce_id e,
      ev_taskId = Some (str_or (ext_taskId e) (ce_id e)),
      ev_type = ''task'',
      ev_title = ce_title e,
      ev_start = Some (formatLocalISO (ce_start e)),
      ev_end = Some (case ce_end e of
                       Some end' \<Rightarrow> formatLocalISO end'
                     | None \<Rightarrow> formatLocalISO (ce_start e + 60 * 60 * 1000)),
      ev_color = Some (if backgroundColor e = [] then ''#10b981'' else backgroundColor e),
      ev_other = []\<rparr>"

text \<open>
  The object spread \<^verbatim>\<open>{ ...old, ...newEventData }\<close>: the seven keys of the new
  data win, the other keys of the stored event stay.
\<close>

definition spread :: "event \<Rightarrow> event \<Rightarrow> event" where
  "spread old new =
     old\<lparr>ev_id := ev_id new, ev_taskId := ev_taskId new, ev_type := ev_type new,
         ev_title := ev_title new, ev_start := ev_start new, ev_end := ev_end new,
         ev_color := ev_color new\<rparr>"

definition placeEvent :: "event list \<Rightarrow> event \<Rightarrow> event list" where
  "placeEvent evs new =
     (case findIndex (\<lambda>e. ev_id e = ev_id new) evs of
        Some eventIndex \<Rightarrow> evs[eventIndex := spread (evs ! eventIndex) new]
      | None \<Rightarrow> evs @ [new])"

text \<open>
  \<^verbatim>\<open>handleEventChange\<close>: without a file it returns at once; on a document
  without \<open>events\<close> the call of \<^verbatim>\<open>findIndex\<close> throws.
\<close>

definition handleEventChange ::
  "(document \<Rightarrow> string) \<Rightarrow> view \<Rightarrow> cal_event \<Rightarrow> action \<Rightarrow> error + view" where
  "handleEventChange dump v e act =
     (case file_text v of
        None \<Rightarrow> Inr v
      | Some _ \<Rightarrow>
          (case events (yamlData v) of
             None \<Rightarrow> Inl TypeError
           | Some evs \<Rightarrow>
               (let d = updateTaskStatuses
                          ((yamlData v)\<lparr>events := Some (sortByStart (placeEvent evs (newEventData e)))\<rparr>)
                in Inr (v\<lparr>yamlData := d, file_text := Some (dump d)\<rparr>))))"

text \<open>
  \<^verbatim>\<open>eventClick\<close>: \<open>confirmed\<close> is the answer to the confirmation dialogue.
\<close>

definition eventClick ::
  "(document \<Rightarrow> string) \<Rightarrow> bool \<Rightarrow> view \<Rightarrow> cal_event \<Rightarrow> error + view" where
  "eventClick dump confirmed v e =
     (if ext_type e = Some ''outlook'' then Inr (v\<lparr>notices := notices v @ [NoticeOutlookFixed]\<rparr>)
      else if confirmed then
        (case events (yamlData v) of
           None \<Rightarrow> Inl TypeError
         | Some evs \<Rightarrow>
             (let d = updateTaskStatuses
                        ((yamlData v)\<lparr>events := Some (filter (\<lambda>x. ev_id x \<noteq> ce_id e) evs)\<rparr>)
              in Inr (v\<lparr>yamlData := d,
                        file_text := map_option (\<lambda>_. dump d) (file_text v),
                        notices := notices v @ [NoticeDeleted]\<rparr>)))
      else Inr v)"

text \<open>The three calendar callbacks that pass a gesture to \<^verbatim>\<open>handleEventChange\<close>.\<close>

definition eventReceive :: "(document \<Rightarrow> string) \<Rightarrow> view \<Rightarrow> cal_event \<Rightarrow> error + view" where
  "eventReceive dump v e = handleEventChange dump v e Receive"

definition eventDrop :: "(document \<Rightarrow> string) \<Rightarrow> view \<Rightarrow> cal_event \<Rightarrow> error + view" where
  "eventDrop dump v e = handleEventChange dump v e Update"

definition eventResize :: "(document \<Rightarrow> string) \<Rightarrow> view \<Rightarrow> cal_event \<Rightarrow> error + view" where
  "eventResize dump v e = handleEventChange dump v e Update"

section \<open>The external synchronisation\<close>

text \<open>
  What the run of the external script gives the click handler: the Node modules
  are missing, the process failed, or it printed something. The printed text is
  classified by what \<^verbatim>\<open>JSON.parse\<close> and the spread \<^verbatim>\<open>push(...newEvents)\<close> do
  with it: it is no JSON, it is JSON that cannot be spread (an object, a number,
  a boolean, null), or it is an array of event records. Other outputs (a JSON
  string, an array with entries that are no records) are outside the model.
\<close>

datatype payload = Unparsable | NotIterable | Records "event list"

datatype sync_run = NoNode | ExecFailed | Output payload

text \<open>The document part of the callback, from the filter to the sort.\<close>

definition mergeExternal :: "document \<Rightarrow> event list \<Rightarrow> document" where
  "mergeExternal currentData newEvents =
     (let evs = (case events currentData of None \<Rightarrow> [] | Some es \<Rightarrow> es);
          kept = filter (\<lambda>ev. ev_type ev \<noteq> ''outlook'') evs
      in currentData\<lparr>events := Some (sortByStart (kept @ newEvents))\<rparr>)"

text \<open>
  When the output cannot be spread, the exception comes after the assignment of
  the filtered list.
\<close>

definition dropExternal :: "document \<Rightarrow> document" where
  "dropExternal currentData =
     (let evs = (case events currentData of None \<Rightarrow> [] | Some es \<Rightarrow> es)
      in currentData\<lparr>events := Some (filter (\<lambda>ev. ev_type ev \<noteq> ''outlook'') evs)\<rparr>)"

definition syncCallback :: "(document \<Rightarrow> string) \<Rightarrow> bool \<Rightarrow> payload \<Rightarrow> view \<Rightarrow> view" where
  "syncCallback dump err out v =
     (if err then v\<lparr>notices := notices v @ [NoticeFetchFailed]\<rparr>
      else
        (case out of
           Unparsable \<Rightarrow> v\<lparr>notices := notices v @ [NoticeParseFailed]\<rparr>
         | NotIterable \<Rightarrow>
             v\<lparr>yamlData := dropExternal (yamlData v),
               notices := notices v @ [NoticeParseFailed]\<rparr>
         | Records newEvents \<Rightarrow>
             (let d = mergeExternal (yamlData v) newEvents
              in v\<lparr>yamlData := d,
                   file_text := map_option (\<lambda>_. dump d) (file_text v),
                   notices := notices v @ [NoticeSynced]\<rparr>)))"

definition syncClick :: "(document \<Rightarrow> string) \<Rightarrow> sync_run \<Rightarrow> view \<Rightarrow> view" where
  "syncClick dump run v =
     (let v1 = v\<lparr>notices := notices v @ [NoticeFetching]\<rparr>
      in case run of
           NoNode \<Rightarrow> v1\<lparr>notices := notices v1 @ [NoticeSystemError]\<rparr>
         | ExecFailed \<Rightarrow> syncCallback dump True Unparsable v1
         | Output out \<Rightarrow> syncCallback dump False out v1)"

section \<open>The edit mode toggle\<close>

text \<open>
  \<open>load\<close> and \<open>dump\<close> are the YAML library: \<open>load\<close> gives \<open>None\<close> where
  \<^verbatim>\<open>yaml.load\<close> throws. The handler only tests that the text loads.
\<close>

definition toggleModeClick ::
  "(string \<Rightarrow> document option) \<Rightarrow> (document \<Rightarrow> string) \<Rightarrow> view \<Rightarrow> view" where
  "toggleModeClick load dump v =
     (let v1 = v\<lparr>isSourceMode := \<not> isSourceMode v\<rparr>
      in if isSourceMode v1 then
           v1\<lparr>sourceValue := dump (yamlData v1), visualDisplay := ''none'',
              sourceDisplay := ''block'', toggleLabel := VisualModeLabel\<rparr>
         else
           (let newText = sourceValue v1
            in case load newText of
                 None \<Rightarrow> v1\<lparr>notices := notices v1 @ [NoticeYamlSyntax], isSourceMode := True\<rparr>
               | Some _ \<Rightarrow>
                   v1\<lparr>file_text := map_option (\<lambda>_. newText) (file_text v1), sourceDisplay := ''none'',
                      visualDisplay := ''flex'', toggleLabel := SourceModeLabel\<rparr>))"

section \<open>Observations used in the statements\<close>

definition itemsOf :: "goal \<Rightarrow> task list" where
  "itemsOf g = (case items g of None \<Rightarrow> [] | Some ts \<Rightarrow> ts)"

text \<open>All tasks of a document, role by role, in display order.\<close>

definition tasksOf :: "document \<Rightarrow> task list" where
  "tasksOf d = (case goals d of None \<Rightarrow> [] | Some gs \<Rightarrow> concat (map itemsOf gs))"

definition eventsOf :: "document \<Rightarrow> event list" where
  "eventsOf d = (case events d of None \<Rightarrow> [] | Some es \<Rightarrow> es)"

text \<open>
  The scheduled hours of a task as the code accumulates them. An event counts for
  a task when its type is \<open>task\<close>, its \<open>taskId\<close> (or, without one, its \<open>id\<close>) is
  the task's id, and it has both a start and an end. Its hours are the rounded
  quotient of the rounded difference; the total starts at 0 and takes the counted
  events in the order of the list, rounding after every addition.
\<close>

definition counted :: "string \<Rightarrow> event \<Rightarrow> bool" where
  "counted tid ev =
     (ev_type ev = ''task'' \<and> str_or (ev_taskId ev) (ev_id ev) = tid \<and>
      (case (ev_start ev, ev_end ev) of (Some s, Some e) \<Rightarrow> True | _ \<Rightarrow> False))"

definition eventHours :: "event \<Rightarrow> real" where
  "eventHours ev =
     (case (ev_start ev, ev_end ev) of
        (Some s, Some e) \<Rightarrow> num_div (num_sub (of_int e) (of_int s)) (1000 * 60 * 60)
      | _ \<Rightarrow> 0)"

definition scheduledHours :: "event list \<Rightarrow> string \<Rightarrow> real" where
  "scheduledHours evs tid = foldl num_add 0 (map eventHours (filter (counted tid) evs))"

text \<open>
  The scheduled hours of a task as the specification words them: the sum of
  \<open>end - start\<close>, in hours, over the events of type \<open>task\<close> whose \<open>taskId\<close>
  (or, without one, whose \<open>id\<close>) is the task's id.
\<close>

definition linkedTo :: "string \<Rightarrow> event \<Rightarrow> bool" where
  "linkedTo tid ev = (ev_type ev = ''task'' \<and> str_or (ev_taskId ev) (ev_id ev) = tid)"

definition exactEventHours :: "event \<Rightarrow> real" where
  "exactEventHours ev =
     (case (ev_start ev, ev_end ev) of
        (Some s, Some e) \<Rightarrow> of_int (e - s) / 3600000
      | _ \<Rightarrow> 0)"

definition exactHours :: "event list \<Rightarrow> string \<Rightarrow> real" where
  "exactHours evs tid = sum_list (map exactEventHours (filter (linkedTo tid) evs))"

text \<open>
  The counted blocks of a task lie on the quarter hour grid: each lasts a whole
  number of quarter hours (900000 milliseconds), and all of them together last
  less than \<open>2 ^ 53\<close> milliseconds.
\<close>

definition duration :: "event \<Rightarrow> int" where
  "duration ev = (case (ev_start ev, ev_end ev) of (Some s, Some e) \<Rightarrow> e - s | _ \<Rightarrow> 0)"

definition onQuarterHours :: "event list \<Rightarrow> string \<Rightarrow> bool" where
  "onQuarterHours evs tid =
     (list_all (\<lambda>ev. duration ev mod 900000 = 0) (filter (counted tid) evs) \<and>
      sum_list (map (\<lambda>ev. \<bar>duration ev\<bar>) (filter (counted tid) evs)) < 2 ^ 53)"

text \<open>Every event of the list carries a start.\<close>

definition startsPresent :: "event list \<Rightarrow> bool" where
  "startsPresent evs = list_all (\<lambda>e. case ev_start e of None \<Rightarrow> False | Some _ \<Rightarrow> True) evs"

definition startLe :: "event \<Rightarrow> event \<Rightarrow> bool" where
  "startLe a b = (case (ev_start a, ev_start b) of (Some x, Some y) \<Rightarrow> x \<le> y | _ \<Rightarrow> False)"

text \<open>The list is non-decreasing by start: each event starts no later than all after it.\<close>

definition nondecreasingByStart :: "event list \<Rightarrow> bool" where
  "nondecreasingByStart evs = sorted_wrt startLe evs"

definition isOutlook :: "event \<Rightarrow> bool" where
  "isOutlook ev = (ev_type ev = ''outlook'')"

text \<open>
  The merger as the specification words it: the stored external events are
  removed, every incoming entry is tagged \<open>outlook\<close> and appended, the events are
  sorted by start, and the reconciler runs.
\<close>

definition mergeExternal_spec :: "document \<Rightarrow> event list \<Rightarrow> document" where
  "mergeExternal_spec d incoming =
     updateTaskStatuses
       (d\<lparr>events := Some (sortByStart
            (filter (\<lambda>ev. \<not> isOutlook ev) (eventsOf d)
             @ map (\<lambda>ev. ev\<lparr>ev_type := ''outlook''\<rparr>) incoming))\<rparr>)"

text \<open>The start of an event as a sorting key, for the proofs about the sort.\<close>

definition startKey :: "event \<Rightarrow> int" where
  "startKey e = (case ev_start e of None \<Rightarrow> 0 | Some t \<Rightarrow> t)"

section \<open>Example data\<close>

text \<open>
  A task of two hours, two blocks of one hour for it (09:00 to 10:00 and 11:00 to
  12:00, in milliseconds of one day), and a fixed external event at 13:00.
\<close>

definition task1 :: task where
  "task1 = \<lparr>task_id = ''t1'', task_title = ''report'', estimated_hours = Num 2, status = ''pool''\<rparr>"

definition block1 :: event where
  "block1 = \<lparr>ev_id = ''t1_1'', ev_taskId = Some ''t1'', ev_type = ''task'', ev_title = ''report'',
             ev_start = Some 32400000, ev_end = Some 36000000, ev_color = None, ev_other = []\<rparr>"

definition block2 :: event where
  "block2 = \<lparr>ev_id = ''t1_2'', ev_taskId = Some ''t1'', ev_type = ''task'', ev_title = ''report'',
             ev_start = Some 39600000, ev_end = Some 43200000, ev_color = None, ev_other = []\<rparr>"

definition meeting :: event where
  "meeting = \<lparr>ev_id = ''o1'', ev_taskId = None, ev_type = ''outlook'', ev_title = ''meeting'',
              ev_start = Some 46800000, ev_end = Some 50400000, ev_color = None, ev_other = []\<rparr>"

definition planOf :: "task list \<Rightarrow> event list \<Rightarrow> document" where
  "planOf ts evs =
     \<lparr>insight = [], goals = Some [\<lparr>role = ''work'', items = Some ts\<rparr>], events = Some evs\<rparr>"

definition viewOf :: "document \<Rightarrow> view" where
  "viewOf d =
     \<lparr>yamlData = d, file_text = Some [], isSourceMode = False, sourceValue = [],
      sourceDisplay = ''none'', visualDisplay = ''flex'', toggleLabel = SourceModeLabel,
      notices = []\<rparr>"

text \<open>
  Blocks of 40, 60 and 20 minutes, and two blocks of 10 minutes, for the same task.
\<close>

definition forty :: event where
  "forty = \<lparr>ev_id = ''t1_40'', ev_taskId = Some ''t1'', ev_type = ''task'', ev_title = ''report'',
            ev_start = Some 32400000, ev_end = Some 34800000, ev_color = None, ev_other = []\<rparr>"

definition sixty :: event where
  "sixty = \<lparr>ev_id = ''t1_60'', ev_taskId = Some ''t1'', ev_type = ''task'', ev_title = ''report'',
            ev_start = Some 36000000, ev_end = Some 39600000, ev_color = None, ev_other = []\<rparr>"

definition twenty :: event where
  "twenty = \<lparr>ev_id = ''t1_20'', ev_taskId = Some ''t1'', ev_type = ''task'', ev_title = ''report'',
             ev_start = Some 39600000, ev_end = Some 40800000, ev_color = None, ev_other = []\<rparr>"

definition tenA :: event where
  "tenA = \<lparr>ev_id = ''t1_10a'', ev_taskId = Some ''t1'', ev_type = ''task'', ev_title = ''report'',
           ev_start = Some 28800000, ev_end = Some 29400000, ev_color = None, ev_other = []\<rparr>"

definition tenB :: event where
  "tenB = \<lparr>ev_id = ''t1_10b'', ev_taskId = Some ''t1'', ev_type = ''task'', ev_title = ''report'',
           ev_start = Some 43200000, ev_end = Some 43800000, ev_color = None, ev_other = []\<rparr>"

definition dragged :: cal_event where
  "dragged = \<lparr>ce_id = ''t1_1'', ce_title = ''report'', ce_start = 54000000,
              ce_end = Some 57600000, backgroundColor = ''#10b981'', ext_type = Some ''task'',
              ext_taskId = Some ''t1''\<rparr>"

definition untagged :: event where
  "untagged = meeting\<lparr>ev_type := []\<rparr>"

definition sourceView :: view where
  "sourceView = (viewOf (planOf [task1] [block1]))\<lparr>isSourceMode := True, sourceValue := ''goals: ['',
                   sourceDisplay := ''block'', visualDisplay := ''none'',
                   toggleLabel := VisualModeLabel\<rparr>"

definition draggedMeeting :: cal_event where
  "draggedMeeting = \<lparr>ce_id = ''o1'', ce_title = ''meeting'', ce_start = 54000000,
                     ce_end = Some 57600000, backgroundColor = ''#3b82f6'',
                     ext_type = Some ''outlook'', ext_taskId = Some ''o1''\<rparr>"

text \<open>Two drops of the task on the calendar; a block in the colour of a drop.\<close>

definition drop1 :: cal_event where
  "drop1 = \<lparr>ce_id = ''t1_1'', ce_title = ''report'', ce_start = 32400000,
            ce_end = Some 36000000, backgroundColor = ''#10b981'', ext_type = Some ''task'',
            ext_taskId = Some ''t1''\<rparr>"

definition drop2 :: cal_event where
  "drop2 = \<lparr>ce_id = ''t1_2'', ce_title = ''report'', ce_start = 39600000,
            ce_end = Some 43200000, backgroundColor = ''#10b981'', ext_type = Some ''task'',
            ext_taskId = Some ''t1''\<rparr>"

definition green :: "event \<Rightarrow> event" where
  "green ev = ev\<lparr>ev_color := Some ''#10b981''\<rparr>"

lemmas example_defs =
  task1_def block1_def block2_def meeting_def planOf_def viewOf_def
  forty_def sixty_def twenty_def tenA_def tenB_def
  dragged_def untagged_def sourceView_def draggedMeeting_def drop1_def drop2_def green_def

lemmas double_defs =
  toDouble_def num_add_def num_sub_def num_div_def pow2_def exponent_def roundHalfEven_def
  bitlength.simps Let_def

lemmas observation_defs =
  itemsOf_def tasksOf_def eventsOf_def eventHours_def counted_def scheduledHours_def
  linkedTo_def exactEventHours_def exactHours_def duration_def onQuarterHours_def

lemmas reconciler_defs =
  updateTaskStatuses_def updateRole_def updateTask_def collectTaskHours_def addEventHours_def
  get_or_0_def num_or_def str_or_def double_defs

section \<open>The rounding to doubles\<close>

lemma pow2_powi: "pow2 k = 2 powi k"
  by (simp add: pow2_def power_int_def inverse_eq_divide power_one_over)

lemma pow2_pos: "0 < pow2 k"
  by (simp add: pow2_powi)




lemma bitlength_bounds:
  "0 < n \<Longrightarrow> 2 ^ (bitlength n - 1) \<le> n \<and> n < 2 ^ bitlength n"
proof (induction n rule: bitlength.induct)
  case (1 n)
  show ?case
  proof (cases "n div 2 = 0")
    case True
    with "1.prems" have "n = 1" by (simp add: div_eq_0_iff) 
    then show ?thesis by (simp add: bitlength.simps)
  next
    case False
    then have pos: "0 < n div 2" by simp
    from "1.prems" have n0: "n \<noteq> 0" by simp
    from "1.IH" [OF n0 pos]
    have lo: "2 ^ (bitlength (n div 2) - 1) \<le> n div 2" and hi: "n div 2 < 2 ^ bitlength (n div 2)"
      by simp_all
    have b: "bitlength n = Suc (bitlength (n div 2))"
      using n0 by (subst bitlength.simps) simp
    have bp: "0 < bitlength (n div 2)"
      using pos by (subst bitlength.simps) simp
    then have "(2::nat) ^ bitlength (n div 2) = 2 * 2 ^ (bitlength (n div 2) - 1)"
      by (cases "bitlength (n div 2)") simp_all
    with lo have "2 ^ bitlength (n div 2) \<le> 2 * (n div 2)" by simp
    also have "\<dots> \<le> n" by simp
    finally have l: "2 ^ (bitlength n - 1) \<le> n" by (simp add: b)
    from hi have "n div 2 + 1 \<le> 2 ^ bitlength (n div 2)" by simp
    then have "2 * (n div 2) + 2 \<le> 2 ^ bitlength n" by (simp add: b)
    moreover have "n < 2 * (n div 2) + 2" by presburger
    ultimately have "n < 2 ^ bitlength n" by simp
    with l show ?thesis by simp
  qed
qed

lemma exponent_le:
  assumes "0 < x"
  shows "pow2 (exponent x) \<le> x"
proof (cases "1 \<le> x")
  case True
  define n where "n = nat \<lfloor>x\<rfloor>"
  have fl: "1 \<le> \<lfloor>x\<rfloor>" using True by simp
  then have n: "0 < n" by (simp add: n_def)
  have e: "exponent x = int (bitlength n) - 1"
    using True by (simp add: exponent_def n_def)
  have bp: "0 < bitlength n"
    using n by (subst bitlength.simps) simp
  then have "pow2 (exponent x) = 2 ^ (bitlength n - 1)"
    by (simp add: e pow2_def nat_diff_distrib)
  also have "\<dots> = real (2 ^ (bitlength n - 1))" by simp
  also have "\<dots> \<le> real n"
    using bitlength_bounds [OF n] by (intro of_nat_mono) simp
  also have "real n = of_int \<lfloor>x\<rfloor>"
    using fl by (simp add: n_def)
  also have "\<dots> \<le> x" by simp
  finally show ?thesis .
next
  case False
  define c where "c = \<lceil>1 / x\<rceil>"
  define m where "m = nat (c - 1)"
  from False assms have "1 < 1 / x" by simp
  then have c2: "2 \<le> c" unfolding c_def by linarith
  have cx: "1 / x \<le> of_int c" unfolding c_def by simp
  have m: "0 < m" using c2 by (simp add: m_def)
  have e: "exponent x = - int (bitlength m)"
    using False by (simp add: exponent_def m_def c_def)
  have "m + 1 \<le> 2 ^ bitlength m"
    using bitlength_bounds [OF m] by simp
  then have "real (m + 1) \<le> real (2 ^ bitlength m)"
    by (simp only: of_nat_le_iff)
  then have r: "real m + 1 \<le> 2 ^ bitlength m"
    by simp
  have "real m + 1 = of_int c"
    using c2 by (simp add: m_def)
  with r have "real_of_int c \<le> 2 ^ bitlength m"
    by (simp only:)
  with cx have "1 / x \<le> 2 ^ bitlength m"
    by (rule order_trans)
  then have "1 / 2 ^ bitlength m \<le> x"
    using assms by (simp add: field_simps)
  moreover have "pow2 (exponent x) = 1 / 2 ^ bitlength m"
    by (simp add: e pow2_def)
  ultimately show ?thesis by simp
qed



lemma exponent_less:
  assumes "0 < x"
  shows "x < pow2 (exponent x + 1)"
proof (cases "1 \<le> x")
  case True
  define n where "n = nat \<lfloor>x\<rfloor>"
  have fl: "1 \<le> \<lfloor>x\<rfloor>" using True by simp
  then have n: "0 < n" by (simp add: n_def)
  have e: "exponent x = int (bitlength n) - 1"
    using True by (simp add: exponent_def n_def)
  have "n + 1 \<le> 2 ^ bitlength n"
    using bitlength_bounds [OF n] by simp
  then have "real (n + 1) \<le> real (2 ^ bitlength n)"
    by (simp only: of_nat_le_iff)
  then have r: "real n + 1 \<le> 2 ^ bitlength n"
    by simp
  have "x < of_int \<lfloor>x\<rfloor> + 1" by linarith
  also have "of_int \<lfloor>x\<rfloor> = real n"
    using fl by (simp add: n_def)
  finally have "x < 2 ^ bitlength n"
    using r by simp
  moreover have "pow2 (exponent x + 1) = 2 ^ bitlength n"
    by (simp add: e pow2_def)
  ultimately show ?thesis by simp
next
  case False
  define c where "c = \<lceil>1 / x\<rceil>"
  define m where "m = nat (c - 1)"
  from False assms have "1 < 1 / x" by simp
  then have c2: "2 \<le> c" unfolding c_def by linarith
  have cx: "of_int c - 1 < 1 / x" unfolding c_def by linarith
  have m: "0 < m" using c2 by (simp add: m_def)
  have e: "exponent x = - int (bitlength m)"
    using False by (simp add: exponent_def m_def c_def)
  have bp: "0 < bitlength m"
    using m by (subst bitlength.simps) simp
  have "real (2 ^ (bitlength m - 1)) \<le> real m"
    using bitlength_bounds [OF m] by (simp only: of_nat_le_iff)
  moreover have "real m = of_int c - 1"
    using c2 by (simp add: m_def)
  ultimately have "2 ^ (bitlength m - 1) < 1 / x"
    using cx by simp
  then have "x < 1 / 2 ^ (bitlength m - 1)"
    using assms by (simp add: field_simps)
  moreover have "pow2 (exponent x + 1) = 1 / 2 ^ (bitlength m - 1)"
  proof (cases "bitlength m = 1")
    case True
    then show ?thesis by (simp add: e pow2_def)
  next
    case False
    with bp have "2 \<le> bitlength m" by simp
    then have "nat (int (bitlength m) - 1) = bitlength m - 1" by simp
    with \<open>2 \<le> bitlength m\<close> show ?thesis by (simp add: e pow2_def)
  qed
  ultimately show ?thesis by simp
qed

lemma roundHalfEven_near: "\<bar>of_int (roundHalfEven y) - y\<bar> \<le> 1 / 2"
  unfolding roundHalfEven_def Let_def by (auto; linarith)

text \<open>
  \<open>toDouble\<close> moves a number by at most half the distance of the doubles around
  it, a distance that is \<open>2 ^ 52\<close> times smaller than the power of two at or
  below the number.
\<close>

lemma toDouble_near:
  assumes "x \<noteq> 0"
  shows "\<bar>toDouble x - x\<bar> \<le> pow2 (exponent \<bar>x\<bar> - 52) / 2"
    and "pow2 (exponent \<bar>x\<bar>) \<le> \<bar>x\<bar>" and "\<bar>x\<bar> < pow2 (exponent \<bar>x\<bar> + 1)"
proof -
  let ?u = "pow2 (exponent \<bar>x\<bar> - 52)"
  have u: "0 < ?u" by (rule pow2_pos)
  have "toDouble x - x = (of_int (roundHalfEven (x / ?u)) - x / ?u) * ?u"
    using assms u by (simp add: toDouble_def Let_def field_simps)
  then have "\<bar>toDouble x - x\<bar> = \<bar>of_int (roundHalfEven (x / ?u)) - x / ?u\<bar> * ?u"
    using u by (simp add: abs_mult)
  also have "\<dots> \<le> 1 / 2 * ?u"
    using roundHalfEven_near [of "x / ?u"] u by (intro mult_right_mono) simp_all
  finally show "\<bar>toDouble x - x\<bar> \<le> ?u / 2" by simp
  show "pow2 (exponent \<bar>x\<bar>) \<le> \<bar>x\<bar>"
    using assms by (intro exponent_le) simp
  show "\<bar>x\<bar> < pow2 (exponent \<bar>x\<bar> + 1)"
    using assms by (intro exponent_less) simp
qed








section \<open>The reconciler computes the scheduled hours\<close>

lemma get_or_0_addEventHours:
  "get_or_0 (addEventHours ev m) tid =
     (if counted tid ev then num_add (get_or_0 m tid) (eventHours ev) else get_or_0 m tid)"
  by (auto simp: addEventHours_def get_or_0_def counted_def eventHours_def Let_def
      split: option.splits)

lemma get_or_0_fold:
  "get_or_0 (fold addEventHours evs m) tid =
     foldl num_add (get_or_0 m tid) (map eventHours (filter (counted tid) evs))"
proof (induction evs arbitrary: m)
  case Nil
  then show ?case by simp
next
  case (Cons ev evs)
  have "get_or_0 (fold addEventHours (ev # evs) m) tid
        = foldl num_add (get_or_0 (addEventHours ev m) tid)
            (map eventHours (filter (counted tid) evs))"
    using Cons.IH [of "addEventHours ev m"] by simp
  also have "\<dots> = foldl num_add (get_or_0 m tid)
                      (map eventHours (filter (counted tid) (ev # evs)))"
    by (simp add: get_or_0_addEventHours)
  finally show ?case .
qed

lemma get_or_0_collect:
  "get_or_0 (collectTaskHours (events d)) tid = scheduledHours (eventsOf d) tid"
proof (cases "events d")
  case None
  then show ?thesis
    by (simp add: collectTaskHours_def eventsOf_def scheduledHours_def get_or_0_def)
next
  case (Some es)
  have "get_or_0 Map.empty tid = 0"
    by (simp add: get_or_0_def)
  with Some show ?thesis
    by (simp add: collectTaskHours_def eventsOf_def scheduledHours_def get_or_0_fold)
qed

lemma itemsOf_updateRole: "itemsOf (updateRole th g) = map (updateTask th) (itemsOf g)"
  by (cases "items g") (simp_all add: itemsOf_def updateRole_def)

lemma concat_items_updateRole:
  "concat (map (\<lambda>g. itemsOf (updateRole th g)) gs) = map (updateTask th) (concat (map itemsOf gs))"
  by (induction gs) (simp_all add: itemsOf_updateRole)

lemma tasksOf_updateTaskStatuses:
  "tasksOf (updateTaskStatuses d) = map (updateTask (collectTaskHours (events d))) (tasksOf d)"
  by (cases "goals d")
     (simp_all add: tasksOf_def updateTaskStatuses_def concat_items_updateRole comp_def)

lemma events_updateTaskStatuses: "events (updateTaskStatuses d) = events d"
  by (cases "goals d") (simp_all add: updateTaskStatuses_def)

lemma eventsOf_updateTaskStatuses: "eventsOf (updateTaskStatuses d) = eventsOf d"
  by (simp add: eventsOf_def events_updateTaskStatuses)


lemma scheduledHours_examples:
  "scheduledHours [block1] ''t1'' = 1"
  "scheduledHours [forty, sixty, twenty] ''t1'' = 9007199254740991 / 4503599627370496"
  "scheduledHours [tenA, forty, tenB] ''t1'' = 9007199254740991 / 9007199254740992"
  by (simp_all add: scheduledHours_def counted_def eventHours_def str_or_def example_defs
        double_defs)



text \<open>
  The scenario of the specification: no block gives \<open>pool\<close>, one hour of two gives
  \<open>partial\<close>, two hours give \<open>scheduled\<close>, and without the first block again
  \<open>partial\<close>.
\<close>

lemma reconciler_scenario:
  "tasksOf (updateTaskStatuses (planOf [task1] [])) = [task1\<lparr>status := ''pool''\<rparr>]"
  "tasksOf (updateTaskStatuses (planOf [task1] [block1])) = [task1\<lparr>status := ''partial''\<rparr>]"
  "tasksOf (updateTaskStatuses (planOf [task1] [block1, block2])) =
     [task1\<lparr>status := ''scheduled''\<rparr>]"
  "tasksOf (updateTaskStatuses (planOf [task1] [block2])) = [task1\<lparr>status := ''partial''\<rparr>]"
  by (simp_all add: example_defs reconciler_defs itemsOf_def tasksOf_def)

text \<open>
  The same scenario through the handlers: two blocks dropped on the calendar, then
  the first one deleted.
\<close>

lemma scenario_through_handlers:
  "eventReceive (\<lambda>_. []) (viewOf (planOf [task1] [])) drop1
     = Inr (viewOf (planOf [task1\<lparr>status := ''partial''\<rparr>] [green block1]))"
  "eventReceive (\<lambda>_. []) (viewOf (planOf [task1\<lparr>status := ''partial''\<rparr>] [green block1])) drop2
     = Inr (viewOf (planOf [task1\<lparr>status := ''scheduled''\<rparr>] [green block1, green block2]))"
  "eventClick (\<lambda>_. []) True
       (viewOf (planOf [task1\<lparr>status := ''scheduled''\<rparr>] [green block1, green block2])) drop1
     = Inr ((viewOf (planOf [task1\<lparr>status := ''partial''\<rparr>] [green block2]))
              \<lparr>notices := [NoticeDeleted]\<rparr>)"
  by (simp_all add: eventReceive_def handleEventChange_def eventClick_def Let_def example_defs
        newEventData_def placeEvent_def spread_def
        formatLocalISO_def sortByStart_def sortCompare_def compareStart_def reconciler_defs)

lemma tasksOf_events_update: "tasksOf (d\<lparr>events := evs\<rparr>) = tasksOf d"
  by (simp add: tasksOf_def)

text \<open>
  C6. A task whose status is \<open>completed\<close> or \<open>dropped\<close> comes out of
  \<^verbatim>\<open>updateTaskStatuses\<close> as it went in, whatever the events of the document are.
\<close>

theorem reconciler_keeps_manual_status:
  assumes "k < length (tasksOf d)"
    and "status (tasksOf d ! k) = ''completed'' \<or> status (tasksOf d ! k) = ''dropped''"
  shows "length (tasksOf (updateTaskStatuses (d\<lparr>events := evs\<rparr>))) = length (tasksOf d) \<and>
         tasksOf (updateTaskStatuses (d\<lparr>events := evs\<rparr>)) ! k = tasksOf d ! k"
  using assms
  by (auto simp: tasksOf_updateTaskStatuses tasksOf_events_update updateTask_def)

theorem reconciler_keeps_manual_status_witness:
  "0 < length (tasksOf (planOf [task1\<lparr>status := ''completed''\<rparr>] [])) \<and>
   status (tasksOf (planOf [task1\<lparr>status := ''completed''\<rparr>] []) ! 0) = ''completed'' \<and>
   tasksOf (updateTaskStatuses
      ((planOf [task1\<lparr>status := ''completed''\<rparr>] [])\<lparr>events := Some [block1, block2]\<rparr>)) ! 0
     = task1\<lparr>status := ''completed''\<rparr>"
proof -
  let ?d = "planOf [task1\<lparr>status := ''completed''\<rparr>] []"
  have t: "tasksOf ?d = [task1\<lparr>status := ''completed''\<rparr>]"
    by (simp add: example_defs observation_defs)
  have a: "0 < length (tasksOf ?d)"
    "status (tasksOf ?d ! 0) = ''completed'' \<or> status (tasksOf ?d ! 0) = ''dropped''"
    by (simp_all add: t)
  from reconciler_keeps_manual_status [OF a, of "Some [block1, block2]"] a show ?thesis
    by (simp add: t)
qed

text \<open>
  C10. A task whose estimate parses to NaN or to 0 is reconciled as a task of one
  hour: it gets the status that the same task with the estimate 1 would get.
  When the hours the code has accumulated for it are not 0 and are below 1 it
  becomes \<open>partial\<close>, from 1 on \<open>scheduled\<close>.
\<close>

theorem reconciler_default_estimate:
  assumes "k < length (tasksOf d)"
    and "status (tasksOf d ! k) \<noteq> ''completed''"
    and "status (tasksOf d ! k) \<noteq> ''dropped''"
    and "estimated_hours (tasksOf d ! k) = NaN \<or> estimated_hours (tasksOf d ! k) = Num 0"
  shows "tasksOf (updateTaskStatuses d) ! k =
           (tasksOf d ! k)\<lparr>status :=
              (if scheduledHours (eventsOf d) (task_id (tasksOf d ! k)) = 0 then ''pool''
               else if scheduledHours (eventsOf d) (task_id (tasksOf d ! k)) < 1 then ''partial''
               else ''scheduled'')\<rparr> \<and>
         status (tasksOf (updateTaskStatuses d) ! k) =
           status (updateTask (collectTaskHours (events d))
                     ((tasksOf d ! k)\<lparr>estimated_hours := Num 1\<rparr>))"
  using assms
  by (auto simp: tasksOf_updateTaskStatuses updateTask_def get_or_0_collect num_or_def Let_def)

theorem reconciler_default_estimate_witness:
  "0 < length (tasksOf (planOf [task1\<lparr>estimated_hours := Num 0\<rparr>] [tenA, forty, tenB])) \<and>
   status (tasksOf (planOf [task1\<lparr>estimated_hours := Num 0\<rparr>] [tenA, forty, tenB]) ! 0)
     \<noteq> ''completed'' \<and>
   status (tasksOf (planOf [task1\<lparr>estimated_hours := Num 0\<rparr>] [tenA, forty, tenB]) ! 0)
     \<noteq> ''dropped'' \<and>
   estimated_hours (tasksOf (planOf [task1\<lparr>estimated_hours := Num 0\<rparr>] [tenA, forty, tenB]) ! 0)
     = Num 0 \<and>
   scheduledHours (eventsOf (planOf [task1\<lparr>estimated_hours := Num 0\<rparr>] [tenA, forty, tenB])) ''t1''
     = 9007199254740991 / 9007199254740992 \<and>
   tasksOf (updateTaskStatuses (planOf [task1\<lparr>estimated_hours := Num 0\<rparr>] [tenA, forty, tenB])) ! 0
     = task1\<lparr>estimated_hours := Num 0, status := ''partial''\<rparr>"
proof -
  let ?d = "planOf [task1\<lparr>estimated_hours := Num 0\<rparr>] [tenA, forty, tenB]"
  have t: "tasksOf ?d = [task1\<lparr>estimated_hours := Num 0\<rparr>]"
    by (simp add: planOf_def tasksOf_def itemsOf_def)
  have e: "eventsOf ?d = [tenA, forty, tenB]"
    by (simp add: planOf_def eventsOf_def)
  have h: "scheduledHours (eventsOf ?d) ''t1'' = 9007199254740991 / 9007199254740992"
    by (simp add: e scheduledHours_examples)
  have a: "0 < length (tasksOf ?d)" "status (tasksOf ?d ! 0) \<noteq> ''completed''"
    "status (tasksOf ?d ! 0) \<noteq> ''dropped''"
    "estimated_hours (tasksOf ?d ! 0) = NaN \<or> estimated_hours (tasksOf ?d ! 0) = Num 0"
    by (simp_all add: t) (simp_all add: task1_def)
  have "task_id (tasksOf ?d ! 0) = ''t1''"
    by (simp add: t) (simp add: task1_def)
  with reconciler_default_estimate [OF a] h a show ?thesis
    by (simp add: t)
qed

section \<open>The sort and the two handlers that sort\<close>

lemma startsPresent_simps [simp]:
  "startsPresent [] = True"
  "startsPresent (x # xs) = (ev_start x \<noteq> None \<and> startsPresent xs)"
  "startsPresent (xs @ ys) = (startsPresent xs \<and> startsPresent ys)"
  by (auto simp: startsPresent_def split: option.splits)

lemma startsPresent_iff: "startsPresent xs = (\<forall>e \<in> set xs. ev_start e \<noteq> None)"
  by (induction xs) auto

lemma sortCompare_startKey:
  "ev_start x \<noteq> None \<Longrightarrow> ev_start y \<noteq> None \<Longrightarrow>
     (sortCompare x y \<le> 0) = (startKey x \<le> startKey y)"
  by (auto simp: sortCompare_def compareStart_def startKey_def)

lemma insertByStart_insort:
  "ev_start x \<noteq> None \<Longrightarrow> startsPresent ys \<Longrightarrow> insertByStart x ys = insort_key startKey x ys"
  by (induction ys) (auto simp: sortCompare_startKey)

lemma mset_insertByStart: "mset (insertByStart x ys) = add_mset x (mset ys)"
  by (induction ys) auto

lemma mset_sortByStart: "mset (sortByStart xs) = mset xs"
  by (induction xs) (simp_all add: sortByStart_def mset_insertByStart)

lemma set_sortByStart: "set (sortByStart xs) = set xs"
  using mset_sortByStart [of xs] by (metis set_mset_mset)

lemma startsPresent_sortByStart: "startsPresent (sortByStart xs) = startsPresent xs"
  by (simp add: startsPresent_iff set_sortByStart)

lemma sortByStart_sort_key: "startsPresent xs \<Longrightarrow> sortByStart xs = sort_key startKey xs"
proof (induction xs)
  case Nil
  then show ?case by (simp add: sortByStart_def)
next
  case (Cons x xs)
  then have "sortByStart (x # xs) = insertByStart x (sort_key startKey xs)"
    by (simp add: sortByStart_def)
  moreover have "startsPresent (sort_key startKey xs)"
    using Cons.prems by (simp add: startsPresent_iff)
  ultimately show ?case
    using Cons.prems by (simp add: insertByStart_insort)
qed

lemma nondecreasing_iff:
  "startsPresent xs \<Longrightarrow> nondecreasingByStart xs = sorted (map startKey xs)"
  by (induction xs)
     (auto simp: nondecreasingByStart_def startLe_def startKey_def startsPresent_iff
           split: option.splits)

lemma nondecreasing_sortByStart:
  assumes "startsPresent xs"
  shows "nondecreasingByStart (sortByStart xs)"
proof -
  have "startsPresent (sortByStart xs)"
    using assms by (simp add: startsPresent_sortByStart)
  then have "nondecreasingByStart (sortByStart xs) = sorted (map startKey (sortByStart xs))"
    by (rule nondecreasing_iff)
  also have "\<dots> = sorted (map startKey (sort_key startKey xs))"
    using assms by (simp add: sortByStart_sort_key)
  finally show ?thesis by simp
qed

lemma sort_key_sorted_prefix:
  "sort_key f (sort_key f xs @ ys) = sort_key f (xs @ ys)"
proof (rule properties_for_sort_key)
  show "mset (sort_key f (xs @ ys)) = mset (sort_key f xs @ ys)" by simp
  show "sorted (map f (sort_key f (xs @ ys)))" by simp
  fix k
  have "filter (\<lambda>x. f k = f x) (sort_key f zs) = filter (\<lambda>x. f k = f x) zs" for zs
    using sort_key_stable [of f "f k" zs] by (simp add: eq_commute)
  then show "filter (\<lambda>x. f k = f x) (sort_key f (xs @ ys)) =
             filter (\<lambda>x. f k = f x) (sort_key f xs @ ys)"
    by simp
qed

lemma startsPresent_placeEvent:
  assumes "startsPresent evs" and "ev_start new \<noteq> None"
  shows "startsPresent (placeEvent evs new)"
proof (cases "findIndex (\<lambda>e. ev_id e = ev_id new) evs")
  case None
  then show ?thesis using assms by (simp add: placeEvent_def)
next
  case (Some i)
  have "ev_start (spread (evs ! i) new) \<noteq> None"
    using assms(2) by (simp add: spread_def)
  moreover have "set (evs[i := spread (evs ! i) new]) \<subseteq> insert (spread (evs ! i) new) (set evs)"
    by (rule set_update_subset_insert)
  ultimately show ?thesis
    using assms(1) Some by (auto simp: placeEvent_def startsPresent_iff)
qed

lemma eventsOf_mergeExternal:
  "eventsOf (mergeExternal d incoming) =
     sortByStart (filter (\<lambda>ev. \<not> isOutlook ev) (eventsOf d) @ incoming)"
  by (simp add: mergeExternal_def eventsOf_def isOutlook_def Let_def)

lemma mergeExternal_eq:
  "mergeExternal d incoming =
     d\<lparr>events := Some (sortByStart (filter (\<lambda>ev. \<not> isOutlook ev) (eventsOf d) @ incoming))\<rparr>"
  by (simp add: mergeExternal_def eventsOf_def isOutlook_def Let_def)

lemma startsPresent_filter: "startsPresent xs \<Longrightarrow> startsPresent (filter P xs)"
  by (simp add: startsPresent_iff)

lemma yamlData_syncClick_records:
  "yamlData (syncClick dump (Output (Records incoming)) v) = mergeExternal (yamlData v) incoming"
  by (simp add: syncClick_def syncCallback_def Let_def)

text \<open>
  C8. Where every stored event carries a start: after \<^verbatim>\<open>handleEventChange\<close> has
  applied a change (a file is open and the document has its events), and after
  the merge of an incoming batch whose entries carry a start, the events of the
  document are non-decreasing by start.
\<close>

theorem events_sorted_after_change_and_sync:
  assumes "startsPresent (eventsOf (yamlData v))"
  shows "(file_text v \<noteq> None \<and> events (yamlData v) \<noteq> None \<longrightarrow>
            (\<exists>v'. handleEventChange dump v e act = Inr v' \<and> events (yamlData v') \<noteq> None \<and>
                  nondecreasingByStart (eventsOf (yamlData v')))) \<and>
         (startsPresent incoming \<longrightarrow>
            nondecreasingByStart (eventsOf (mergeExternal (yamlData v) incoming)) \<and>
            nondecreasingByStart (eventsOf (yamlData (syncClick dump (Output (Records incoming)) v))))"
proof (intro conjI impI)
  assume a: "file_text v \<noteq> None \<and> events (yamlData v) \<noteq> None"
  then obtain ft evs where f: "file_text v = Some ft" and ev: "events (yamlData v) = Some evs"
    by auto
  have sp: "startsPresent evs"
    using assms ev by (simp add: eventsOf_def)
  have "ev_start (newEventData e) \<noteq> None"
    by (simp add: newEventData_def)
  with sp have "startsPresent (placeEvent evs (newEventData e))"
    by (rule startsPresent_placeEvent)
  then have "nondecreasingByStart (sortByStart (placeEvent evs (newEventData e)))"
    by (rule nondecreasing_sortByStart)
  then show "\<exists>v'. handleEventChange dump v e act = Inr v' \<and> events (yamlData v') \<noteq> None \<and>
                  nondecreasingByStart (eventsOf (yamlData v'))"
    using f ev
    by (simp add: handleEventChange_def Let_def eventsOf_updateTaskStatuses
                  events_updateTaskStatuses)
       (simp add: eventsOf_def)
next
  assume b: "startsPresent incoming"
  have "startsPresent (filter (\<lambda>ev. \<not> isOutlook ev) (eventsOf (yamlData v)) @ incoming)"
    using assms b by (simp add: startsPresent_filter)
  then show m: "nondecreasingByStart (eventsOf (mergeExternal (yamlData v) incoming))"
    unfolding eventsOf_mergeExternal by (rule nondecreasing_sortByStart)
  then show "nondecreasingByStart (eventsOf (yamlData (syncClick dump (Output (Records incoming)) v)))"
    by (simp add: yamlData_syncClick_records)
qed

theorem events_sorted_after_change_and_sync_witness:
  "startsPresent (eventsOf (yamlData (viewOf (planOf [task1] [block2, block1])))) \<and>
   file_text (viewOf (planOf [task1] [block2, block1])) \<noteq> None \<and>
   events (yamlData (viewOf (planOf [task1] [block2, block1]))) \<noteq> None \<and>
   startsPresent [meeting] \<and>
   (\<exists>v'. handleEventChange (\<lambda>_. []) (viewOf (planOf [task1] [block2, block1])) dragged Update = Inr v' \<and>
         events (yamlData v') \<noteq> None \<and> nondecreasingByStart (eventsOf (yamlData v'))) \<and>
   nondecreasingByStart
     (eventsOf (yamlData (syncClick (\<lambda>_. []) (Output (Records [meeting]))
        (viewOf (planOf [task1] [block2, block1])))))"
proof -
  let ?v = "viewOf (planOf [task1] [block2, block1])"
  have a: "startsPresent (eventsOf (yamlData ?v))"
    by (simp add: example_defs eventsOf_def)
  have b: "file_text ?v \<noteq> None \<and> events (yamlData ?v) \<noteq> None"
    by (simp add: example_defs)
  have c: "startsPresent [meeting]"
    by (simp add: meeting_def)
  from events_sorted_after_change_and_sync [OF a, of "\<lambda>_. []" dragged Update "[meeting]"] a b c
  show ?thesis by blast
qed

lemma filter_sort_kept:
  assumes "list_all isOutlook incoming"
  shows "filter (\<lambda>ev. \<not> isOutlook ev)
           (sort_key f (filter (\<lambda>ev. \<not> isOutlook ev) xs @ incoming))
         = sort_key f (filter (\<lambda>ev. \<not> isOutlook ev) xs)"
proof -
  have "filter (\<lambda>ev. \<not> isOutlook ev) incoming = []"
    using assms by (induction incoming) simp_all
  then show ?thesis by (simp add: filter_sort)
qed

text \<open>
  C3, as amended. For a batch whose entries all have the type \<open>outlook\<close>, with a
  start on every stored and every incoming event, merging the batch a second
  time gives the document that merging it once gave.
\<close>

theorem sync_idempotent_on_tagged_batches:
  assumes "list_all isOutlook incoming"
    and "startsPresent (eventsOf d)"
    and "startsPresent incoming"
  shows "mergeExternal (mergeExternal d incoming) incoming = mergeExternal d incoming"
proof -
  let ?kept = "filter (\<lambda>ev. \<not> isOutlook ev) (eventsOf d)"
  have sp: "startsPresent (?kept @ incoming)"
    using assms(2,3) by (simp add: startsPresent_filter)
  have once: "eventsOf (mergeExternal d incoming) = sort_key startKey (?kept @ incoming)"
    using sp by (simp add: eventsOf_mergeExternal sortByStart_sort_key)
  have kept2: "filter (\<lambda>ev. \<not> isOutlook ev) (eventsOf (mergeExternal d incoming))
               = sort_key startKey ?kept"
    unfolding once using assms(1) by (rule filter_sort_kept)
  have "startsPresent (sort_key startKey ?kept @ incoming)"
    using sp by (simp add: startsPresent_iff)
  then have "sortByStart (sort_key startKey ?kept @ incoming)
             = sort_key startKey (sort_key startKey ?kept @ incoming)"
    by (rule sortByStart_sort_key)
  also have "\<dots> = sort_key startKey (?kept @ incoming)"
    by (rule sort_key_sorted_prefix)
  also have "\<dots> = sortByStart (?kept @ incoming)"
    using sp by (simp add: sortByStart_sort_key)
  finally have "sortByStart (sort_key startKey ?kept @ incoming) = sortByStart (?kept @ incoming)" .
  then show ?thesis
    by (simp add: mergeExternal_eq [of "mergeExternal d incoming"] kept2)
       (simp add: mergeExternal_eq)
qed

theorem sync_idempotent_on_tagged_batches_witness:
  "list_all isOutlook [meeting] \<and>
   startsPresent (eventsOf (planOf [task1] [block2, meeting, block1])) \<and>
   startsPresent [meeting] \<and>
   mergeExternal (mergeExternal (planOf [task1] [block2, meeting, block1]) [meeting]) [meeting]
     = mergeExternal (planOf [task1] [block2, meeting, block1]) [meeting] \<and>
   eventsOf (mergeExternal (planOf [task1] [block2, meeting, block1]) [meeting])
     = [block1, block2, meeting]"
proof -
  let ?d = "planOf [task1] [block2, meeting, block1]"
  have a: "list_all isOutlook [meeting]"
    by (simp add: isOutlook_def meeting_def)
  have b: "startsPresent (eventsOf ?d)"
    by (simp add: example_defs eventsOf_def)
  have c: "startsPresent [meeting]"
    by (simp add: meeting_def)
  have e: "eventsOf (mergeExternal ?d [meeting]) = [block1, block2, meeting]"
    by (simp add: eventsOf_mergeExternal)
       (simp add: example_defs eventsOf_def isOutlook_def sortByStart_def sortCompare_def
                  compareStart_def)
  from sync_idempotent_on_tagged_batches [OF a b c] a b c e show ?thesis by simp
qed

text \<open>
  C3 as stated fails: the merger does not tag what it appends. An incoming entry
  without the type \<open>outlook\<close> survives the filter of the second run and is
  appended again.
\<close>

theorem sync_idempotent_counterexample:
  "mergeExternal (mergeExternal (planOf [task1] []) [untagged]) [untagged]
     \<noteq> mergeExternal (planOf [task1] []) [untagged] \<and>
   eventsOf (mergeExternal (planOf [task1] []) [untagged]) = [untagged] \<and>
   eventsOf (mergeExternal (mergeExternal (planOf [task1] []) [untagged]) [untagged])
     = [untagged, untagged]"
proof -
  have n: "\<not> isOutlook untagged"
    by (simp add: isOutlook_def untagged_def)
  have s: "sortCompare untagged untagged = 0"
    by (simp add: sortCompare_def compareStart_def untagged_def meeting_def)
  have one: "eventsOf (mergeExternal (planOf [task1] []) [untagged]) = [untagged]"
    by (simp add: eventsOf_mergeExternal)
       (simp add: planOf_def eventsOf_def sortByStart_def)
  have two: "eventsOf (mergeExternal (mergeExternal (planOf [task1] []) [untagged]) [untagged])
             = [untagged, untagged]"
    by (simp add: eventsOf_mergeExternal [of "mergeExternal (planOf [task1] []) [untagged]"] one n)
       (simp add: sortByStart_def s)
  from one two have "mergeExternal (mergeExternal (planOf [task1] []) [untagged]) [untagged]
     \<noteq> mergeExternal (planOf [task1] []) [untagged]"
    by (metis list.inject not_Cons_self2)
  with one two show ?thesis by simp
qed

text \<open>
  C2, as amended. The merger removes every stored event of type \<open>outlook\<close>,
  appends every incoming entry as it came, and sorts by start (the result is a
  rearrangement of the kept and the incoming events, non-decreasing by start
  where all of them carry one). It leaves the goals, and so every status, as
  they were; the click handler writes the file and gives two notices.
\<close>

theorem sync_replaces_external_events:
  "goals (mergeExternal d incoming) = goals d \<and>
   insight (mergeExternal d incoming) = insight d \<and>
   mset (eventsOf (mergeExternal d incoming))
     = mset (filter (\<lambda>ev. \<not> isOutlook ev) (eventsOf d)) + mset incoming \<and>
   (startsPresent (eventsOf d) \<and> startsPresent incoming \<longrightarrow>
      nondecreasingByStart (eventsOf (mergeExternal d incoming))) \<and>
   syncClick dump (Output (Records incoming)) v
     = v\<lparr>yamlData := mergeExternal (yamlData v) incoming,
          file_text := map_option (\<lambda>_. dump (mergeExternal (yamlData v) incoming)) (file_text v),
          notices := notices v @ [NoticeFetching, NoticeSynced]\<rparr>"
proof (intro conjI impI)
  show "goals (mergeExternal d incoming) = goals d"
    by (simp add: mergeExternal_eq)
  show "insight (mergeExternal d incoming) = insight d"
    by (simp add: mergeExternal_eq)
  show "mset (eventsOf (mergeExternal d incoming))
          = mset (filter (\<lambda>ev. \<not> isOutlook ev) (eventsOf d)) + mset incoming"
    by (simp add: eventsOf_mergeExternal mset_sortByStart)
  show "syncClick dump (Output (Records incoming)) v
     = v\<lparr>yamlData := mergeExternal (yamlData v) incoming,
          file_text := map_option (\<lambda>_. dump (mergeExternal (yamlData v) incoming)) (file_text v),
          notices := notices v @ [NoticeFetching, NoticeSynced]\<rparr>"
    by (simp add: syncClick_def syncCallback_def Let_def)
next
  assume "startsPresent (eventsOf d) \<and> startsPresent incoming"
  then have "startsPresent (filter (\<lambda>ev. \<not> isOutlook ev) (eventsOf d) @ incoming)"
    by (simp add: startsPresent_filter)
  then show "nondecreasingByStart (eventsOf (mergeExternal d incoming))"
    unfolding eventsOf_mergeExternal by (rule nondecreasing_sortByStart)
qed

theorem sync_replaces_external_events_witness:
  "startsPresent (eventsOf (planOf [task1] [meeting, block1])) \<and> startsPresent [meeting] \<and>
   goals (mergeExternal (planOf [task1] [meeting, block1]) [meeting])
     = goals (planOf [task1] [meeting, block1]) \<and>
   mset (eventsOf (mergeExternal (planOf [task1] [meeting, block1]) [meeting]))
     = {#block1, meeting#} \<and>
   nondecreasingByStart (eventsOf (mergeExternal (planOf [task1] [meeting, block1]) [meeting]))"
proof -
  let ?d = "planOf [task1] [meeting, block1]"
  have a: "startsPresent (eventsOf ?d) \<and> startsPresent [meeting]"
    by (simp add: example_defs eventsOf_def)
  have k: "filter (\<lambda>ev. \<not> isOutlook ev) (eventsOf ?d) = [block1]"
    by (simp add: example_defs eventsOf_def isOutlook_def)
  from sync_replaces_external_events [of ?d "[meeting]"] a k show ?thesis
    by simp
qed

text \<open>
  C2 as stated fails: the handler does not run the reconciler. A task stored as
  \<open>scheduled\<close> with no block keeps that status through a synchronisation, where
  the merger of the specification would set it to \<open>pool\<close>.
\<close>

theorem sync_skips_reconciler_counterexample:
  "mergeExternal (planOf [task1\<lparr>status := ''scheduled''\<rparr>] []) [meeting]
     \<noteq> mergeExternal_spec (planOf [task1\<lparr>status := ''scheduled''\<rparr>] []) [meeting] \<and>
   tasksOf (mergeExternal (planOf [task1\<lparr>status := ''scheduled''\<rparr>] []) [meeting])
     = [task1\<lparr>status := ''scheduled''\<rparr>] \<and>
   tasksOf (mergeExternal_spec (planOf [task1\<lparr>status := ''scheduled''\<rparr>] []) [meeting])
     = [task1\<lparr>status := ''pool''\<rparr>]"
proof -
  let ?d = "planOf [task1\<lparr>status := ''scheduled''\<rparr>] []"
  have code: "tasksOf (mergeExternal ?d [meeting]) = [task1\<lparr>status := ''scheduled''\<rparr>]"
    by (simp add: mergeExternal_eq tasksOf_events_update)
       (simp add: planOf_def tasksOf_def itemsOf_def)
  have spec: "tasksOf (mergeExternal_spec ?d [meeting]) = [task1\<lparr>status := ''pool''\<rparr>]"
    by (simp add: mergeExternal_spec_def example_defs reconciler_defs sortByStart_def
                  isOutlook_def eventsOf_def tasksOf_def itemsOf_def)
  have "task1\<lparr>status := ''scheduled''\<rparr> \<noteq> task1\<lparr>status := ''pool''\<rparr>"
    by (simp add: task1_def)
  with code spec have "mergeExternal ?d [meeting] \<noteq> mergeExternal_spec ?d [meeting]"
    by (metis list.inject)
  with code spec show ?thesis by simp
qed

section \<open>The edit mode toggle\<close>

text \<open>
  C5. When the user leaves the raw text mode and the text does not load, the
  handler only adds the notice of the syntax error: the view stays in the raw
  text mode, the document, the edited text and the file are what they were.
\<close>

theorem failed_switch_keeps_document:
  assumes "isSourceMode v" and "load (sourceValue v) = None"
  shows "toggleModeClick load dump v = v\<lparr>notices := notices v @ [NoticeYamlSyntax]\<rparr> \<and>
         yamlData (toggleModeClick load dump v) = yamlData v \<and>
         isSourceMode (toggleModeClick load dump v) \<and>
         sourceValue (toggleModeClick load dump v) = sourceValue v \<and>
         file_text (toggleModeClick load dump v) = file_text v"
  using assms by (simp add: toggleModeClick_def Let_def)

theorem failed_switch_keeps_document_witness:
  "isSourceMode sourceView \<and> (\<lambda>_. None) (sourceValue sourceView) = (None :: document option) \<and>
   toggleModeClick (\<lambda>_. None) (\<lambda>_. []) sourceView = sourceView\<lparr>notices := [NoticeYamlSyntax]\<rparr> \<and>
   yamlData (toggleModeClick (\<lambda>_. None) (\<lambda>_. []) sourceView) = planOf [task1] [block1]"
proof -
  have a: "isSourceMode sourceView"
    by (simp add: sourceView_def viewOf_def)
  have b: "(\<lambda>_. None) (sourceValue sourceView) = (None :: document option)"
    by simp
  have n: "notices sourceView = []" "yamlData sourceView = planOf [task1] [block1]"
    by (simp_all add: sourceView_def viewOf_def)
  from failed_switch_keeps_document [of sourceView "\<lambda>_. None" "\<lambda>_. []", OF a b] a n
  show ?thesis by simp
qed

section \<open>Gestures on a fixed external event\<close>

lemma click_on_external_event_rejected:
  "ext_type e = Some ''outlook'' \<Longrightarrow>
     eventClick dump confirmed v e = Inr (v\<lparr>notices := notices v @ [NoticeOutlookFixed]\<rparr>)"
  by (simp add: eventClick_def)

text \<open>
  C4. The deletion gesture on a fixed external event is rejected with a notice
  (the lemma above), but the move and the resize are not: \<^verbatim>\<open>eventDrop\<close> and
  \<^verbatim>\<open>eventResize\<close> pass every event to \<^verbatim>\<open>handleEventChange\<close>, which has no
  test of the type. On a document with the fixed event \<open>meeting\<close>, moving it to
  15:00 rewrites the stored event, turns its type into \<open>task\<close>, and gives no
  notice.
\<close>

theorem drag_of_external_event_changes_document:
  "eventDrop (\<lambda>_. []) (viewOf (planOf [task1] [meeting])) draggedMeeting
     = Inr (viewOf (planOf [task1]
         [meeting\<lparr>ev_taskId := Some ''o1'', ev_type := ''task'', ev_start := Some 54000000,
                  ev_end := Some 57600000, ev_color := Some ''#3b82f6''\<rparr>])) \<and>
   eventResize (\<lambda>_. []) (viewOf (planOf [task1] [meeting])) draggedMeeting
     = eventDrop (\<lambda>_. []) (viewOf (planOf [task1] [meeting])) draggedMeeting \<and>
   eventClick (\<lambda>_. []) True (viewOf (planOf [task1] [meeting])) draggedMeeting
     = Inr ((viewOf (planOf [task1] [meeting]))\<lparr>notices := [NoticeOutlookFixed]\<rparr>)"
  by (simp add: eventDrop_def eventResize_def handleEventChange_def eventClick_def Let_def
        example_defs draggedMeeting_def newEventData_def placeEvent_def spread_def
        formatLocalISO_def sortByStart_def reconciler_defs)

section \<open>Failures of the external synchronisation\<close>

lemma sync_failure_before_merge:
  "run = NoNode \<or> run = ExecFailed \<or> run = Output Unparsable \<Longrightarrow>
     yamlData (syncClick dump run v) = yamlData v \<and> file_text (syncClick dump run v) = file_text v
     \<and> notices (syncClick dump run v) \<noteq> notices v"
  by (auto simp: syncClick_def syncCallback_def Let_def)

text \<open>
  C9. A failed process and a text that is no JSON leave the document alone (the
  lemma above). An output that is JSON but no sequence does not: the callback has
  assigned the filtered events before the spread throws, so the notice of the
  failure comes with a document that has lost its fixed external events.
\<close>

theorem sync_failure_drops_external_events:
  "syncClick (\<lambda>_. []) (Output NotIterable) (viewOf (planOf [task1] [meeting, block1]))
     = (viewOf (planOf [task1] [block1]))\<lparr>notices := [NoticeFetching, NoticeParseFailed]\<rparr> \<and>
   yamlData (syncClick (\<lambda>_. []) (Output NotIterable) (viewOf (planOf [task1] [meeting, block1])))
     \<noteq> yamlData (viewOf (planOf [task1] [meeting, block1]))"
  by (simp add: syncClick_def syncCallback_def dropExternal_def Let_def example_defs)

section \<open>What a calendar change writes\<close>

lemma findIndex_first:
  "i < length xs \<Longrightarrow> P (xs ! i) \<Longrightarrow> (\<forall>j<i. \<not> P (xs ! j)) \<Longrightarrow> findIndex P xs = Some i"
proof (induction xs arbitrary: i)
  case Nil
  then show ?case by simp
next
  case (Cons x xs)
  show ?case
  proof (cases i)
    case 0
    with Cons.prems show ?thesis by simp
  next
    case (Suc k)
    with Cons.prems have "\<not> P x" by auto
    moreover have "findIndex P xs = Some k"
    proof (rule Cons.IH)
      show "k < length xs" using Cons.prems(1) Suc by simp
      show "P (xs ! k)" using Cons.prems(2) Suc by simp
      show "\<forall>j<k. \<not> P (xs ! j)"
      proof (intro allI impI)
        fix j assume "j < k"
        then have "Suc j < i" using Suc by simp
        with Cons.prems(3) have "\<not> P ((x # xs) ! Suc j)" by blast
        then show "\<not> P (xs ! j)" by simp
      qed
    qed
    ultimately show ?thesis using Suc by simp
  qed
qed

lemma findIndex_none: "(\<forall>x \<in> set xs. \<not> P x) \<Longrightarrow> findIndex P xs = None"
  by (induction xs) simp_all

lemma spread_same_id_type:
  "ev_id old = ev_id new \<Longrightarrow> ev_type old = ev_type new \<Longrightarrow>
     spread old new =
       old\<lparr>ev_taskId := ev_taskId new, ev_title := ev_title new, ev_start := ev_start new,
           ev_end := ev_end new, ev_color := ev_color new\<rparr>"
  by (cases old) (simp add: spread_def)

lemma eventsOf_handleEventChange:
  assumes "file_text v \<noteq> None" and "events (yamlData v) = Some evs"
  shows "\<exists>v'. handleEventChange dump v e act = Inr v' \<and>
              eventsOf (yamlData v') = sortByStart (placeEvent evs (newEventData e))"
  using assms
  by (auto simp: handleEventChange_def Let_def eventsOf_updateTaskStatuses)
     (simp add: eventsOf_def)

text \<open>
  C7, as amended. When \<^verbatim>\<open>handleEventChange\<close> applies (a file is open, the document
  has its events) and the first stored event with the incoming id has the type
  \<open>task\<close>, it writes the new title, start, end (one hour after the start when
  the incoming event has none) and colour (the default without one) into that
  slot and sets its \<open>taskId\<close> to the task id the incoming event carries, or to
  the event id without one; the type and the other keys of the slot stay. When no
  stored event has that id, it appends a new event of type \<open>task\<close> with that
  \<open>taskId\<close>. The events are then sorted by start.
\<close>

theorem change_merges_or_appends:
  assumes "file_text v \<noteq> None" and "events (yamlData v) = Some evs"
  shows
    "(i < length evs \<and> ev_id (evs ! i) = ce_id e \<and> (\<forall>j<i. ev_id (evs ! j) \<noteq> ce_id e) \<and>
      ev_type (evs ! i) = ''task'' \<longrightarrow>
        (\<exists>v'. handleEventChange dump v e act = Inr v' \<and>
           eventsOf (yamlData v') =
             sortByStart (evs[i := (evs ! i)
               \<lparr>ev_taskId := Some (str_or (ext_taskId e) (ce_id e)),
                ev_title := ce_title e,
                ev_start := Some (formatLocalISO (ce_start e)),
                ev_end := Some (case ce_end e of
                                 Some t \<Rightarrow> formatLocalISO t
                               | None \<Rightarrow> formatLocalISO (ce_start e + 60 * 60 * 1000)),
                ev_color := Some (if backgroundColor e = [] then ''#10b981''
                                  else backgroundColor e)\<rparr>]))) \<and>
     ((\<forall>x \<in> set evs. ev_id x \<noteq> ce_id e) \<longrightarrow>
        (\<exists>v'. handleEventChange dump v e act = Inr v' \<and>
           eventsOf (yamlData v') =
             sortByStart (evs @
               [\<lparr>ev_id = ce_id e,
                 ev_taskId = Some (str_or (ext_taskId e) (ce_id e)),
                 ev_type = ''task'',
                 ev_title = ce_title e,
                 ev_start = Some (formatLocalISO (ce_start e)),
                 ev_end = Some (case ce_end e of
                                  Some t \<Rightarrow> formatLocalISO t
                                | None \<Rightarrow> formatLocalISO (ce_start e + 60 * 60 * 1000)),
                 ev_color = Some (if backgroundColor e = [] then ''#10b981''
                                  else backgroundColor e),
                 ev_other = []\<rparr>])))"
proof (intro conjI impI)
  assume h: "i < length evs \<and> ev_id (evs ! i) = ce_id e \<and>
             (\<forall>j<i. ev_id (evs ! j) \<noteq> ce_id e) \<and> ev_type (evs ! i) = ''task''"
  then have "findIndex (\<lambda>x. ev_id x = ce_id e) evs = Some i"
    by (intro findIndex_first) simp_all
  then have "placeEvent evs (newEventData e) = evs[i := spread (evs ! i) (newEventData e)]"
    by (simp add: placeEvent_def newEventData_def)
  moreover have "spread (evs ! i) (newEventData e) = (evs ! i)
               \<lparr>ev_taskId := Some (str_or (ext_taskId e) (ce_id e)),
                ev_title := ce_title e,
                ev_start := Some (formatLocalISO (ce_start e)),
                ev_end := Some (case ce_end e of
                                 Some t \<Rightarrow> formatLocalISO t
                               | None \<Rightarrow> formatLocalISO (ce_start e + 60 * 60 * 1000)),
                ev_color := Some (if backgroundColor e = [] then ''#10b981''
                                  else backgroundColor e)\<rparr>"
    using h by (subst spread_same_id_type) (simp_all add: newEventData_def)
  ultimately show "\<exists>v'. handleEventChange dump v e act = Inr v' \<and>
           eventsOf (yamlData v') =
             sortByStart (evs[i := (evs ! i)
               \<lparr>ev_taskId := Some (str_or (ext_taskId e) (ce_id e)),
                ev_title := ce_title e,
                ev_start := Some (formatLocalISO (ce_start e)),
                ev_end := Some (case ce_end e of
                                 Some t \<Rightarrow> formatLocalISO t
                               | None \<Rightarrow> formatLocalISO (ce_start e + 60 * 60 * 1000)),
                ev_color := Some (if backgroundColor e = [] then ''#10b981''
                                  else backgroundColor e)\<rparr>])"
    using eventsOf_handleEventChange [OF assms, of dump e act] by simp
next
  assume "\<forall>x \<in> set evs. ev_id x \<noteq> ce_id e"
  then have "findIndex (\<lambda>x. ev_id x = ce_id e) evs = None"
    by (intro findIndex_none) simp
  then have "placeEvent evs (newEventData e) = evs @ [newEventData e]"
    by (simp add: placeEvent_def newEventData_def)
  then show "\<exists>v'. handleEventChange dump v e act = Inr v' \<and>
           eventsOf (yamlData v') =
             sortByStart (evs @
               [\<lparr>ev_id = ce_id e,
                 ev_taskId = Some (str_or (ext_taskId e) (ce_id e)),
                 ev_type = ''task'',
                 ev_title = ce_title e,
                 ev_start = Some (formatLocalISO (ce_start e)),
                 ev_end = Some (case ce_end e of
                                  Some t \<Rightarrow> formatLocalISO t
                                | None \<Rightarrow> formatLocalISO (ce_start e + 60 * 60 * 1000)),
                 ev_color = Some (if backgroundColor e = [] then ''#10b981''
                                  else backgroundColor e),
                 ev_other = []\<rparr>])"
    using eventsOf_handleEventChange [OF assms, of dump e act]
    by (simp add: newEventData_def)
qed

theorem change_merges_or_appends_witness:
  "(file_text (viewOf (planOf [task1] [block1, block2])) \<noteq> None \<and>
    events (yamlData (viewOf (planOf [task1] [block1, block2]))) = Some [block1, block2] \<and>
    0 < length [block1, block2] \<and> ev_id ([block1, block2] ! 0) = ce_id dragged \<and>
    ev_type ([block1, block2] ! 0) = ''task'' \<and>
    (\<exists>v'. handleEventChange (\<lambda>_. []) (viewOf (planOf [task1] [block1, block2])) dragged Update
            = Inr v' \<and>
          eventsOf (yamlData v') =
            [block2, block1\<lparr>ev_start := Some 54000000, ev_end := Some 57600000,
                            ev_color := Some ''#10b981''\<rparr>])) \<and>
   (file_text (viewOf (planOf [task1] [block2])) \<noteq> None \<and>
    events (yamlData (viewOf (planOf [task1] [block2]))) = Some [block2] \<and>
    ev_id block2 \<noteq> ce_id dragged \<and>
    (\<exists>v'. handleEventChange (\<lambda>_. []) (viewOf (planOf [task1] [block2])) dragged Update = Inr v' \<and>
          eventsOf (yamlData v') =
            [block2, block1\<lparr>ev_start := Some 54000000, ev_end := Some 57600000,
                            ev_color := Some ''#10b981''\<rparr>]))"
proof (intro conjI)
  let ?v = "viewOf (planOf [task1] [block1, block2])"
  let ?w = "viewOf (planOf [task1] [block2])"
  show a: "file_text ?v \<noteq> None"
    by (simp add: viewOf_def)
  show b: "events (yamlData ?v) = Some [block1, block2]"
    by (simp add: viewOf_def planOf_def)
  show "0 < length [block1, block2]" by simp
  show "ev_id ([block1, block2] ! 0) = ce_id dragged"
    by (simp add: block1_def dragged_def)
  show "ev_type ([block1, block2] ! 0) = ''task''"
    by (simp add: block1_def)
  show "\<exists>v'. handleEventChange (\<lambda>_. []) ?v dragged Update = Inr v' \<and>
          eventsOf (yamlData v') =
            [block2, block1\<lparr>ev_start := Some 54000000, ev_end := Some 57600000,
                            ev_color := Some ''#10b981''\<rparr>]"
    using change_merges_or_appends
            [OF a b, where i = 0 and e = dragged and dump = "\<lambda>_. []" and act = Update]
    by (simp add: block1_def block2_def dragged_def sortByStart_def sortCompare_def
          compareStart_def formatLocalISO_def str_or_def)
  show c: "file_text ?w \<noteq> None"
    by (simp add: viewOf_def)
  show d: "events (yamlData ?w) = Some [block2]"
    by (simp add: viewOf_def planOf_def)
  show "ev_id block2 \<noteq> ce_id dragged"
    by (simp add: block2_def dragged_def)
  show "\<exists>v'. handleEventChange (\<lambda>_. []) ?w dragged Update = Inr v' \<and>
          eventsOf (yamlData v') =
            [block2, block1\<lparr>ev_start := Some 54000000, ev_end := Some 57600000,
                            ev_color := Some ''#10b981''\<rparr>]"
    using change_merges_or_appends
            [OF c d, where e = dragged and dump = "\<lambda>_. []" and act = Update]
    by (simp add: block1_def block2_def dragged_def sortByStart_def sortCompare_def
          compareStart_def formatLocalISO_def str_or_def)
qed

text \<open>
  C7 as stated fails: the stored \<open>taskId\<close> is not preserved, it is overwritten
  with what the incoming event carries. An incoming event without a task id
  turns the \<open>taskId\<close> of the stored block from \<open>t1\<close> into the id of the block.
\<close>

theorem change_overwrites_taskId_counterexample:
  "handleEventChange (\<lambda>_. []) (viewOf (planOf [task1] [block1])) (dragged\<lparr>ext_taskId := None\<rparr>) Update
     = Inr (viewOf (planOf [task1]
         [block1\<lparr>ev_taskId := Some ''t1_1'', ev_start := Some 54000000, ev_end := Some 57600000,
                 ev_color := Some ''#10b981''\<rparr>])) \<and>
   ev_taskId block1 = Some ''t1'' \<and> ev_type block1 = ''task'' \<and>
   ev_id block1 = ce_id (dragged\<lparr>ext_taskId := None\<rparr>)"
  by (simp add: handleEventChange_def Let_def example_defs newEventData_def placeEvent_def
        spread_def formatLocalISO_def sortByStart_def reconciler_defs)

end
